theory Spec2Isabelle
  imports Complex_Main "HOL-Library.Word"
begin

section \<open>Values of the program\<close>

text \<open>
  The program is the Streamlit script \<^verbatim>\<open>app.py\<close>. A Python \<^verbatim>\<open>str\<close> is a sequence of
  code points, so it is modelled as a list of naturals; a literal of the source is written
  \<open>py ''...''\<close>. Bytes are 8-bit words. The wall clock \<^verbatim>\<open>time.time()\<close> is read as a real
  number of seconds and is handed to every function that reads it.
\<close>

type_synonym pystr = "nat list"

type_synonym byte = "8 word"

definition py :: "string \<Rightarrow> pystr" where
  "py s = map of_char s"

text \<open>The exceptions that the modelled code can raise.\<close>

datatype error =
    UnicodeEncodeError
  | RequestException
  | HTTPError int
  | JSONDecodeError
  | AttributeError

text \<open>
  What \<^verbatim>\<open>response.json()\<close> can return. A Python \<^verbatim>\<open>dict\<close> keeps its entries in insertion
  order, so it is an association list (its keys are distinct in every decoded value; no
  function below depends on that). No function of the program looks inside a number.
\<close>

datatype json =
    JNull
  | JBool bool
  | JInt int
  | JFloat real
  | JStr pystr
  | JList "json list"
  | JDict "(pystr \<times> json) list"

section \<open>The authorization header\<close>

text \<open>
  \<^verbatim>\<open>str.encode("utf-8")\<close> of CPython, one code point at a time. Surrogate code points are
  refused; a number from \<open>0x110000\<close> on is no code point, no \<^verbatim>\<open>str\<close> holds one, and the
  model refuses it too.
\<close>

definition utf8_char :: "nat \<Rightarrow> error + byte list" where
  "utf8_char c =
     (if c < 0x80 then Inr [of_nat c]
      else if c < 0x800 then Inr [of_nat (0xC0 + c div 64), of_nat (0x80 + c mod 64)]
      else if 0xD800 \<le> c \<and> c < 0xE000 then Inl UnicodeEncodeError
      else if c < 0x10000 then
        Inr [of_nat (0xE0 + c div 4096), of_nat (0x80 + c div 64 mod 64),
             of_nat (0x80 + c mod 64)]
      else if c < 0x110000 then
        Inr [of_nat (0xF0 + c div 262144), of_nat (0x80 + c div 4096 mod 64),
             of_nat (0x80 + c div 64 mod 64), of_nat (0x80 + c mod 64)]
      else Inl UnicodeEncodeError)"

fun utf8_encode :: "pystr \<Rightarrow> error + byte list" where
  "utf8_encode [] = Inr []"
| "utf8_encode (c # cs) =
     (case utf8_char c of
        Inl e \<Rightarrow> Inl e
      | Inr bs \<Rightarrow> (case utf8_encode cs of Inl e \<Rightarrow> Inl e | Inr rest \<Rightarrow> Inr (bs @ rest)))"

text \<open>
  \<^verbatim>\<open>base64.b64encode\<close> (RFC 4648, the standard alphabet, padded with \<^verbatim>\<open>=\<close>): three bytes
  make a 24-bit number that is cut into four 6-bit digits.
\<close>

definition B64_ALPHABET :: "byte list" where
  "B64_ALPHABET =
     map of_char ''ABCDEFGHIJKLMNOPQRSTUVWXYZabcdefghijklmnopqrstuvwxyz0123456789+/''"

definition b64_pad :: byte where
  "b64_pad = of_char CHR ''=''"

definition b64_digit :: "nat \<Rightarrow> byte" where
  "b64_digit i = B64_ALPHABET ! i"

fun b64encode :: "byte list \<Rightarrow> byte list" where
  "b64encode (a # b # c # rest) =
     (let n = (unat a * 256 + unat b) * 256 + unat c
      in b64_digit (n div 262144) # b64_digit (n div 4096 mod 64) #
         b64_digit (n div 64 mod 64) # b64_digit (n mod 64) # b64encode rest)"
| "b64encode [a, b] =
     (let n = (unat a * 256 + unat b) * 256
      in [b64_digit (n div 262144), b64_digit (n div 4096 mod 64),
          b64_digit (n div 64 mod 64), b64_pad])"
| "b64encode [a] =
     (let n = unat a * 256 * 256
      in [b64_digit (n div 262144), b64_digit (n div 4096 mod 64), b64_pad, b64_pad])"
| "b64encode [] = []"

text \<open>
  \<^verbatim>\<open>bytes.decode("utf-8")\<close> on bytes below \<open>0x80\<close>, which is all that \<open>b64encode\<close> emits
  (lemma \<open>b64encode_ascii\<close>): each byte is the code point of the same value.
\<close>

definition ascii_str :: "byte list \<Rightarrow> pystr" where
  "ascii_str bs = map unat bs"

text \<open>\<^verbatim>\<open>get_basic_auth_header\<close> (lines 23-29).\<close>

definition get_basic_auth_header :: "pystr \<Rightarrow> pystr \<Rightarrow> error + pystr" where
  "get_basic_auth_header username password =
     (let credentials = username @ py '':'' @ password
      in case utf8_encode credentials of
           Inl e \<Rightarrow> Inl e
         | Inr raw \<Rightarrow>
             (let encoded = ascii_str (b64encode raw)
              in Inr (py ''Basic '' @ encoded)))"

text \<open>
  A decoder for the alphabet above, the inverse that makes the encoding reversible: four
  digits give back the 24-bit number, and the padding says how many of its bytes count.
\<close>

fun index_of :: "'a \<Rightarrow> 'a list \<Rightarrow> nat option" where
  "index_of x [] = None"
| "index_of x (y # ys) = (if x = y then Some 0 else map_option Suc (index_of x ys))"

definition b64_value :: "byte \<Rightarrow> nat option" where
  "b64_value c = index_of c B64_ALPHABET"

fun b64decode :: "byte list \<Rightarrow> byte list option" where
  "b64decode [] = Some []"
| "b64decode (c1 # c2 # c3 # c4 # rest) =
     (case (b64_value c1, b64_value c2) of
        (Some v1, Some v2) \<Rightarrow>
          (if c3 = b64_pad \<and> c4 = b64_pad \<and> rest = [] then
             (let n = (v1 * 64 + v2) * 4096 in Some [of_nat (n div 65536)])
           else if c4 = b64_pad \<and> rest = [] then
             (case b64_value c3 of
                Some v3 \<Rightarrow>
                  (let n = ((v1 * 64 + v2) * 64 + v3) * 64
                   in Some [of_nat (n div 65536), of_nat (n div 256 mod 256)])
              | None \<Rightarrow> None)
           else
             (case (b64_value c3, b64_value c4, b64decode rest) of
                (Some v3, Some v4, Some bs) \<Rightarrow>
                  (let n = ((v1 * 64 + v2) * 64 + v3) * 64 + v4
                   in Some (of_nat (n div 65536) # of_nat (n div 256 mod 256) #
                            of_nat (n mod 256) # bs))
              | _ \<Rightarrow> None))
      | _ \<Rightarrow> None)"
| "b64decode cs = None"

section \<open>Credential handling\<close>

definition CREDENTIAL_EXPIRY_SECONDS :: real where
  "CREDENTIAL_EXPIRY_SECONDS = 600"

text \<open>The dictionary stored under \<^verbatim>\<open>st.session_state["credentials"]\<close>.\<close>

record credential =
  cred_email :: pystr
  cred_password :: pystr
  cred_timestamp :: real

text \<open>
  \<^verbatim>\<open>st.session_state\<close>, with the five keys the script uses. \<open>None\<close> stands for a key that
  is absent or holds \<^verbatim>\<open>None\<close>; \<^verbatim>\<open>main\<close> initialises the last four on every run, to \<^verbatim>\<open>None\<close>,
  \<^verbatim>\<open>None\<close>, \<^verbatim>\<open>""\<close> and \<^verbatim>\<open>""\<close>.
\<close>

record session_state =
  st_credentials :: "credential option"
  st_auth_header :: "pystr option"
  st_action_data :: "(pystr \<times> json list) list option"
  st_workspace_id :: pystr
  st_model_id :: pystr

text \<open>\<^verbatim>\<open>save_credentials\<close> (lines 33-38); \<open>now\<close> is what \<^verbatim>\<open>time.time()\<close> returns.\<close>

definition save_credentials :: "session_state \<Rightarrow> pystr \<Rightarrow> pystr \<Rightarrow> real \<Rightarrow> session_state" where
  "save_credentials s email password now =
     s\<lparr>st_credentials :=
         Some \<lparr>cred_email = email, cred_password = password, cred_timestamp = now\<rparr>\<rparr>"

text \<open>
  \<^verbatim>\<open>get_credentials\<close> (lines 41-45). The stored dictionary has three keys, so it is truthy
  whenever it is there. The function writes nothing to the session state.

  Line 43 subtracts two doubles and rounds the difference; the model subtracts reals. The
  two comparisons with 600 agree when the stored timestamp is at least 600: a later time
  of at most twice the timestamp gives a difference that is a double itself, a later time
  beyond that gives a difference of at least 600 before and after rounding, and an
  earlier time gives one that is not positive. Below 600 they can differ (a save at \<open>1e-20\<close> and a call at
  \<open>600\<close>: the code computes \<open>600.0\<close>, the model less). The clock counts seconds since
  1970, so its values are far above 600, and the theorems for all times carry the bound.
\<close>

definition get_credentials :: "session_state \<Rightarrow> real \<Rightarrow> pystr option \<times> pystr option" where
  "get_credentials s now =
     (case st_credentials s of
        Some creds \<Rightarrow>
          if now - cred_timestamp creds < CREDENTIAL_EXPIRY_SECONDS
          then (Some (cred_email creds), Some (cred_password creds))
          else (None, None)
      | None \<Rightarrow> (None, None))"

section \<open>Fetching one category\<close>

definition BASE_URL :: pystr where
  "BASE_URL = py ''https://api.anaplan.com/1/3''"

text \<open>
  What the code reads of a \<^verbatim>\<open>requests.Response\<close>: its status and what \<^verbatim>\<open>.json()\<close> gives,
  \<open>None\<close> when the body is not JSON.
\<close>

record response =
  status_code :: int
  body_json :: "json option"

text \<open>
  \<^verbatim>\<open>requests.get(url, headers=headers, verify=False)\<close>: the remote side is a parameter, a
  function of the URL and the headers that answers with a response or raises. The four
  requests of one fetch cycle have four different URLs, so any four outcomes are such a
  function.
\<close>

type_synonym http = "pystr \<Rightarrow> (pystr \<times> pystr) list \<Rightarrow> error + response"

text \<open>\<^verbatim>\<open>Response.raise_for_status\<close> of the requests library: it raises on 4xx and 5xx.\<close>

definition raise_for_status :: "response \<Rightarrow> error + unit" where
  "raise_for_status r =
     (if 400 \<le> status_code r \<and> status_code r < 600 then Inl (HTTPError (status_code r))
      else Inr ())"

definition response_json :: "response \<Rightarrow> error + json" where
  "response_json r = (case body_json r of None \<Rightarrow> Inl JSONDecodeError | Some data \<Rightarrow> Inr data)"

text \<open>The loop of lines 71-74 over \<^verbatim>\<open>data.items()\<close>, with the \<^verbatim>\<open>return []\<close> after it.\<close>

fun first_list_value :: "(pystr \<times> json) list \<Rightarrow> json list" where
  "first_list_value [] = []"
| "first_list_value ((key, JList v) # rest) = v"
| "first_list_value ((key, v) # rest) = first_list_value rest"

text \<open>Lines 70-78 of \<^verbatim>\<open>fetch_items\<close>: the \<^verbatim>\<open>isinstance\<close> chain on the decoded body.\<close>

fun normalize_data :: "json \<Rightarrow> json list" where
  "normalize_data (JDict entries) = first_list_value entries"
| "normalize_data (JList items) = items"
| "normalize_data data = []"

text \<open>Line 64: the URL of one category of one model.\<close>

definition item_url :: "pystr \<Rightarrow> pystr \<Rightarrow> pystr \<Rightarrow> pystr" where
  "item_url workspace_id model_id item_type =
     BASE_URL @ py ''/workspaces/'' @ workspace_id @ py ''/models/'' @ model_id
       @ py ''/'' @ item_type"

text \<open>Line 65: the headers of the request.\<close>

definition request_headers :: "pystr \<Rightarrow> (pystr \<times> pystr) list" where
  "request_headers auth_header = [(py ''Authorization'', auth_header)]"

text \<open>\<^verbatim>\<open>fetch_items\<close> (lines 63-78).\<close>

definition fetch_items :: "http \<Rightarrow> pystr \<Rightarrow> pystr \<Rightarrow> pystr \<Rightarrow> pystr \<Rightarrow> error + json list" where
  "fetch_items get auth_header workspace_id model_id item_type =
     (let url = item_url workspace_id model_id item_type;
          headers = request_headers auth_header
      in case get url headers of
           Inl e \<Rightarrow> Inl e
         | Inr response \<Rightarrow>
             (case raise_for_status response of
                Inl e \<Rightarrow> Inl e
              | Inr u \<Rightarrow>
                  (case response_json response of
                     Inl e \<Rightarrow> Inl e
                   | Inr data \<Rightarrow> Inr (normalize_data data))))"

text \<open>
  \<^verbatim>\<open>get_all_action_types\<close> (lines 81-87): a dictionary display evaluates its entries in
  order, and the first call that raises ends the evaluation.
\<close>

definition get_all_action_types ::
    "http \<Rightarrow> pystr \<Rightarrow> pystr \<Rightarrow> pystr \<Rightarrow> error + (pystr \<times> json list) list" where
  "get_all_action_types get auth_header workspace_id model_id =
     (case fetch_items get auth_header workspace_id model_id (py ''processes'') of
        Inl e \<Rightarrow> Inl e
      | Inr processes \<Rightarrow>
     (case fetch_items get auth_header workspace_id model_id (py ''imports'') of
        Inl e \<Rightarrow> Inl e
      | Inr imports \<Rightarrow>
     (case fetch_items get auth_header workspace_id model_id (py ''exports'') of
        Inl e \<Rightarrow> Inl e
      | Inr exports \<Rightarrow>
     (case fetch_items get auth_header workspace_id model_id (py ''actions'') of
        Inl e \<Rightarrow> Inl e
      | Inr actions \<Rightarrow>
          Inr [(py ''Processes'', processes), (py ''Imports'', imports),
               (py ''Exports'', exports), (py ''Other Actions'', actions)]))))"

section \<open>The script's two steps on the session state\<close>

text \<open>The session state of a fresh session after lines 95-102 of \<^verbatim>\<open>main\<close>.\<close>

definition initial_state :: session_state where
  "initial_state =
     \<lparr>st_credentials = None, st_auth_header = None, st_action_data = None,
      st_workspace_id = [], st_model_id = []\<rparr>"

text \<open>
  What the script writes to the page in the branch of the Fetch button: the two
  \<^verbatim>\<open>st.error\<close> calls of the input checks, the \<^verbatim>\<open>st.error\<close> of the handler with the
  exception it caught, the \<^verbatim>\<open>st.warning\<close> and the \<^verbatim>\<open>st.success\<close>.
\<close>

datatype message =
    Error_enter_credentials
  | Error_enter_ids
  | Error_connection error
  | Warning_no_actions
  | Success_loaded

text \<open>
  Lines 109-130 of \<^verbatim>\<open>main\<close>, run when the Fetch button is pressed; \<open>email\<close>, \<open>password\<close>,
  \<open>workspace_id\<close> and \<open>model_id\<close> are what the four text inputs hold. \<^verbatim>\<open>except Exception\<close>
  catches every exception of the \<^verbatim>\<open>try\<close> block, and the writes made before it stay.
\<close>

definition main_fetch_actions ::
    "http \<Rightarrow> session_state \<Rightarrow> pystr \<Rightarrow> pystr \<Rightarrow> pystr \<Rightarrow> pystr \<Rightarrow> session_state \<times> message" where
  "main_fetch_actions get s email password workspace_id model_id =
     (if email = [] \<or> password = [] then (s, Error_enter_credentials)
      else if workspace_id = [] \<or> model_id = [] then (s, Error_enter_ids)
      else
        (case get_basic_auth_header email password of
           Inl e \<Rightarrow> (s, Error_connection e)
         | Inr auth_header \<Rightarrow>
             (let s1 = s\<lparr>st_auth_header := Some auth_header,
                         st_workspace_id := workspace_id,
                         st_model_id := model_id\<rparr>
              in case get_all_action_types get auth_header workspace_id model_id of
                   Inl e \<Rightarrow> (s1, Error_connection e)
                 | Inr action_data \<Rightarrow>
                     (s1\<lparr>st_action_data := Some action_data\<rparr>,
                      if \<not> list_ex (\<lambda>(category, items). items \<noteq> []) action_data
                      then Warning_no_actions else Success_loaded))))"

text \<open>\<^verbatim>\<open>i.get(key, default)\<close>; only a \<^verbatim>\<open>dict\<close> has the method.\<close>

fun dict_get :: "json \<Rightarrow> pystr \<Rightarrow> json \<Rightarrow> error + json" where
  "dict_get (JDict entries) key dflt =
     Inr (case map_of entries key of Some v \<Rightarrow> v | None \<Rightarrow> dflt)"
| "dict_get i key dflt = Inl AttributeError"

text \<open>The list comprehension of line 139: the Name and ID cells of each item.\<close>

fun table_rows :: "json list \<Rightarrow> error + (json \<times> json) list" where
  "table_rows [] = Inr []"
| "table_rows (i # items) =
     (case dict_get i (py ''name'') (JStr []) of
        Inl e \<Rightarrow> Inl e
      | Inr name \<Rightarrow>
          (case dict_get i (py ''id'') (JStr []) of
             Inl e \<Rightarrow> Inl e
           | Inr ident \<Rightarrow>
               (case table_rows items of
                  Inl e \<Rightarrow> Inl e
                | Inr rows \<Rightarrow> Inr ((name, ident) # rows))))"

text \<open>A row of the combined list: the dictionary with the keys Name, ID and Type.\<close>

record row =
  row_Name :: json
  row_ID :: json
  row_Type :: pystr

text \<open>
  The loop of lines 136-147 over \<^verbatim>\<open>action_data.items()\<close>, with \<^verbatim>\<open>combined_data\<close> as the
  accumulator. The rows go through a pandas \<^verbatim>\<open>DataFrame\<close> and come back with
  \<^verbatim>\<open>to_dict(orient="records")\<close>, which keeps their number and order, and keeps cells that
  are strings as they are; the model passes every cell through unchanged, which for a
  column of numbers and nulls is not what pandas does. What the page shows on the way
  (\<^verbatim>\<open>st.subheader\<close>, \<^verbatim>\<open>st.table\<close>, \<^verbatim>\<open>st.info\<close>) is left out; the theorem about the loop
  is stated for records whose name and id are strings or absent.
\<close>

fun main_display_loop :: "(pystr \<times> json list) list \<Rightarrow> row list \<Rightarrow> error + row list" where
  "main_display_loop [] combined_data = Inr combined_data"
| "main_display_loop ((category, items) # rest) combined_data =
     (if items \<noteq> [] then
        (case table_rows items of
           Inl e \<Rightarrow> Inl e
         | Inr df \<Rightarrow>
             main_display_loop rest
               (combined_data @
                map (\<lambda>(name, ident). \<lparr>row_Name = name, row_ID = ident, row_Type = category\<rparr>) df))
      else main_display_loop rest combined_data)"

text \<open>
  Lines 133-147 of \<^verbatim>\<open>main\<close>: the combined list that the download is made of, empty when
  nothing is shown. An exception of this part is not caught.
\<close>

definition main_display_actions :: "session_state \<Rightarrow> error + row list" where
  "main_display_actions s =
     (case st_action_data s of
        None \<Rightarrow> Inr []
      | Some action_data \<Rightarrow> if action_data = [] then Inr [] else main_display_loop action_data [])"

section \<open>Predicates used to state the properties\<close>

text \<open>\<^verbatim>\<open>isinstance(v, list)\<close> and \<^verbatim>\<open>isinstance(v, dict)\<close> on a decoded value.\<close>

definition is_list :: "json \<Rightarrow> bool" where
  "is_list v = (case v of JList items \<Rightarrow> True | _ \<Rightarrow> False)"

definition is_dict :: "json \<Rightarrow> bool" where
  "is_dict v = (case v of JDict entries \<Rightarrow> True | _ \<Rightarrow> False)"

text \<open>The resource names of the four categories, in the order of the requests.\<close>

definition RESOURCES :: "pystr list" where
  "RESOURCES = [py ''processes'', py ''imports'', py ''exports'', py ''actions'']"

text \<open>
  The action item that the specification derives from a raw record, given as the entries
  of the record: the name and the id, each the empty string when the record has no such
  field, and the category.
\<close>

definition field_or_empty :: "(pystr \<times> json) list \<Rightarrow> pystr \<Rightarrow> json" where
  "field_or_empty entries key = (case map_of entries key of Some v \<Rightarrow> v | None \<Rightarrow> JStr [])"

definition action_item :: "pystr \<Rightarrow> (pystr \<times> json) list \<Rightarrow> row" where
  "action_item category entries =
     \<lparr>row_Name = field_or_empty entries (py ''name''),
      row_ID = field_or_empty entries (py ''id''),
      row_Type = category\<rparr>"

text \<open>
  A raw record as the specification has it: its name and its id, where present, are
  strings.
\<close>

definition str_or_absent :: "json option \<Rightarrow> bool" where
  "str_or_absent v = (case v of None \<Rightarrow> True | Some (JStr x) \<Rightarrow> True | Some other \<Rightarrow> False)"

definition string_fields :: "(pystr \<times> json) list \<Rightarrow> bool" where
  "string_fields entries =
     (str_or_absent (map_of entries (py ''name'')) \<and> str_or_absent (map_of entries (py ''id'')))"

section \<open>Example data\<close>

text \<open>A remote side that answers every request with status 200 and the body \<open>data\<close>.\<close>

definition ok_response :: "json \<Rightarrow> response" where
  "ok_response data = \<lparr>status_code = 200, body_json = Some data\<rparr>"

definition answer_all :: "json \<Rightarrow> http" where
  "answer_all data = (\<lambda>url headers. Inr (ok_response data))"

definition example_item :: json where
  "example_item = JDict [(py ''name'', JStr (py ''A'')), (py ''id'', JStr (py ''1''))]"

definition example_entries :: "(pystr \<times> json) list" where
  "example_entries =
     [(py ''meta'', JDict []), (py ''items'', JList [example_item]), (py ''more'', JList [])]"

definition nested_entries :: "(pystr \<times> json) list" where
  "nested_entries =
     [(py ''meta'', JDict [(py ''items'', JList [example_item])]), (py ''n'', JInt 1)]"

text \<open>
  A remote side that answers the request for the exports of model M1 in workspace W1 with
  status 500, and every other request with one item.
\<close>

definition fails_on_exports :: http where
  "fails_on_exports =
     (\<lambda>url headers.
        if url = item_url (py ''W1'') (py ''M1'') (py ''exports'')
        then Inr \<lparr>status_code = 500, body_json = None\<rparr>
        else Inr (ok_response (JList [example_item])))"

definition earlier_collection :: "(pystr \<times> json list) list" where
  "earlier_collection =
     [(py ''Processes'', [example_item]), (py ''Imports'', []),
      (py ''Exports'', []), (py ''Other Actions'', [])]"

text \<open>Raw records: one with both fields, one without a name.\<close>

definition p1_entries :: "(pystr \<times> json) list" where
  "p1_entries = [(py ''name'', JStr (py ''P1'')), (py ''id'', JStr (py ''p1''))]"

definition e1_entries :: "(pystr \<times> json) list" where
  "e1_entries = [(py ''id'', JStr (py ''e1'')), (py ''kind'', JInt 3)]"

section \<open>The credential store\<close>

text \<open>
  Claim C2. After \<open>save_credentials\<close> at a time \<open>T\<close> of the clock (a value of at least
  600, where the model's subtraction is the code's), a call of \<open>get_credentials\<close> at time
  \<open>T'\<close> returns exactly the saved pair when \<open>T' - T < 600\<close> and \<open>(None, None)\<close> when
  \<open>T' - T \<ge> 600\<close>. The answer is computed from the stored timestamp and the time of the
  call alone; \<open>get_credentials\<close> returns no new state, so nothing expires between calls.
\<close>

theorem get_credentials_after_save:
  assumes "600 \<le> T"
  shows "get_credentials (save_credentials s email password T) T' =
           (if T' - T < 600 then (Some email, Some password) else (None, None))"
  by (simp add: get_credentials_def save_credentials_def CREDENTIAL_EXPIRY_SECONDS_def)

theorem get_credentials_after_save_witness:
  "get_credentials (save_credentials initial_state (py ''a'') (py ''b'') 1700000000) 1700000599 =
     (Some (py ''a''), Some (py ''b''))
   \<and> get_credentials (save_credentials initial_state (py ''a'') (py ''b'') 1700000000) 1700000600 =
     (None, None)"
proof -
  have clock: "(600::real) \<le> 1700000000" by simp
  have valid: "(1700000599::real) - 1700000000 < 600" by simp
  have expired: "\<not> (1700000600::real) - 1700000000 < 600" by simp
  show ?thesis
    by (simp only: get_credentials_after_save [OF clock] valid expired if_True if_False
          simp_thms)
qed

text \<open>
  Claim C8. \<open>save_credentials\<close> stores the new pair with the time of the call whatever the
  session state held before (no credential, a valid one or an expired one), so a second
  save leaves what it would have left without the first; it returns a state in every case.
  For a second save at a time of the clock (at least 600), \<open>get_credentials\<close> then answers
  from the second pair and the second timestamp alone.
\<close>

theorem save_credentials_overwrites:
  "st_credentials (save_credentials s e2 p2 t2) =
       Some \<lparr>cred_email = e2, cred_password = p2, cred_timestamp = t2\<rparr>
   \<and> save_credentials (save_credentials s e1 p1 t1) e2 p2 t2 = save_credentials s e2 p2 t2
   \<and> (600 \<le> t2 \<longrightarrow>
        get_credentials (save_credentials (save_credentials s e1 p1 t1) e2 p2 t2) t3 =
          (if t3 - t2 < 600 then (Some e2, Some p2) else (None, None)))"
  by (simp add: save_credentials_def get_credentials_def CREDENTIAL_EXPIRY_SECONDS_def)

theorem save_credentials_overwrites_witness:
  "st_credentials
     (save_credentials (save_credentials initial_state (py ''a'') (py ''b'') 1700000000)
        (py ''c'') (py ''d'') 1700000100) =
     Some \<lparr>cred_email = py ''c'', cred_password = py ''d'', cred_timestamp = 1700000100\<rparr>
   \<and> get_credentials
     (save_credentials (save_credentials initial_state (py ''a'') (py ''b'') 1700000000)
        (py ''c'') (py ''d'') 1700000100) 1700000650 = (Some (py ''c''), Some (py ''d''))"
proof -
  note stored = save_credentials_overwrites
      [of "save_credentials initial_state (py ''a'') (py ''b'') 1700000000" "py ''c''" "py ''d''"
        1700000100, THEN conjunct1]
  note inst = save_credentials_overwrites [of initial_state "py ''c''" "py ''d''" 1700000100
      "py ''a''" "py ''b''" 1700000000 1700000650, THEN conjunct2, THEN conjunct2]
  have clock: "(600::real) \<le> 1700000100" by simp
  have valid: "(1700000650::real) - 1700000100 < 600" by simp
  from inst clock have "get_credentials
     (save_credentials (save_credentials initial_state (py ''a'') (py ''b'') 1700000000)
        (py ''c'') (py ''d'') 1700000100) 1700000650 =
     (if (1700000650::real) - 1700000100 < 600 then (Some (py ''c''), Some (py ''d''))
      else (None, None))"
    by (rule mp)
  with valid have "get_credentials
     (save_credentials (save_credentials initial_state (py ''a'') (py ''b'') 1700000000)
        (py ''c'') (py ''d'') 1700000100) 1700000650 = (Some (py ''c''), Some (py ''d''))"
    by (simp only: if_True)
  with stored show ?thesis by (rule conjI)
qed

section \<open>Normalising a decoded body\<close>

lemma first_list_value_Cons:
  "first_list_value ((key, v) # rest) =
     (case v of JList xs \<Rightarrow> xs | _ \<Rightarrow> first_list_value rest)"
  by (cases v) simp_all

lemma first_list_value_first:
  "i < length entries \<Longrightarrow> snd (entries ! i) = JList xs \<Longrightarrow>
   (\<forall>j<i. \<not> is_list (snd (entries ! j))) \<Longrightarrow> first_list_value entries = xs"
proof (induction entries arbitrary: i)
  case Nil
  then show ?case by simp
next
  case (Cons kv rest)
  obtain key v where kv: "kv = (key, v)" by (cases kv)
  show ?case
  proof (cases i)
    case 0
    with Cons.prems kv show ?thesis by simp
  next
    case (Suc i')
    from Cons.prems Suc have head: "\<not> is_list v"
      using kv by (auto dest: spec [of _ 0])
    have "\<forall>j<i'. \<not> is_list (snd (rest ! j))"
    proof (intro allI impI)
      fix j assume "j < i'"
      then have "Suc j < i" using Suc by simp
      with Cons.prems(3) have "\<not> is_list (snd ((kv # rest) ! Suc j))" by blast
      then show "\<not> is_list (snd (rest ! j))" by simp
    qed
    with Cons.IH [of i'] Cons.prems Suc have "first_list_value rest = xs" by simp
    with head kv show ?thesis
      by (simp add: first_list_value_Cons is_list_def split: json.splits)
  qed
qed

lemma first_list_value_none:
  "(\<forall>i<length entries. \<not> is_list (snd (entries ! i))) \<Longrightarrow> first_list_value entries = []"
proof (induction entries)
  case Nil
  then show ?case by simp
next
  case (Cons kv rest)
  obtain key v where kv: "kv = (key, v)" by (cases kv)
  from Cons.prems have head: "\<not> is_list v" using kv by (auto dest: spec [of _ 0])
  have "\<forall>i<length rest. \<not> is_list (snd (rest ! i))"
  proof (intro allI impI)
    fix i assume "i < length rest"
    then have "Suc i < length (kv # rest)" by simp
    with Cons.prems have "\<not> is_list (snd ((kv # rest) ! Suc i))" by blast
    then show "\<not> is_list (snd (rest ! i))" by simp
  qed
  with Cons.IH have "first_list_value rest = []" by simp
  with head kv show ?case
    by (simp add: first_list_value_Cons is_list_def split: json.splits)
qed

lemma first_list_value_origin:
  "first_list_value entries = [] \<or>
   (\<exists>key. (key, JList (first_list_value entries)) \<in> set entries)"
proof (induction entries)
  case Nil
  then show ?case by simp
next
  case (Cons kv rest)
  obtain key v where kv: "kv = (key, v)" by (cases kv)
  with Cons.IH show ?case
    by (cases v) (auto simp: first_list_value_Cons)
qed

lemma fetch_items_decoded:
  assumes "get (item_url w m t) (request_headers a) = Inr r"
    and "raise_for_status r = Inr ()"
    and "body_json r = Some data"
  shows "fetch_items get a w m t = Inr (normalize_data data)"
  using assms by (simp add: fetch_items_def response_json_def)

text \<open>
  Claim C1. When the request is answered, the status is not an error status and the body
  decodes to \<open>data\<close>, \<open>fetch_items\<close> returns: for a mapping, the value of the first entry
  (in the mapping's order) whose value is a sequence, and the empty sequence when no
  entry's value is a sequence; for a sequence, the sequence itself; for anything else
  (a scalar or null), the empty sequence.
\<close>

theorem fetch_items_normalizes:
  assumes "get (item_url w m t) (request_headers a) = Inr r"
    and "raise_for_status r = Inr ()"
    and "body_json r = Some data"
  shows "\<exists>items. fetch_items get a w m t = Inr items \<and>
     (\<forall>entries. data = JDict entries \<longrightarrow>
        (\<forall>i xs. i < length entries \<and> snd (entries ! i) = JList xs \<and>
                 (\<forall>j<i. \<not> is_list (snd (entries ! j))) \<longrightarrow> items = xs) \<and>
        ((\<forall>i<length entries. \<not> is_list (snd (entries ! i))) \<longrightarrow> items = [])) \<and>
     (\<forall>xs. data = JList xs \<longrightarrow> items = xs) \<and>
     (\<not> is_dict data \<and> \<not> is_list data \<longrightarrow> items = [])"
proof -
  have "fetch_items get a w m t = Inr (normalize_data data)"
    using assms by (rule fetch_items_decoded)
  moreover have "\<forall>entries. data = JDict entries \<longrightarrow>
        (\<forall>i xs. i < length entries \<and> snd (entries ! i) = JList xs \<and>
                 (\<forall>j<i. \<not> is_list (snd (entries ! j))) \<longrightarrow> normalize_data data = xs) \<and>
        ((\<forall>i<length entries. \<not> is_list (snd (entries ! i))) \<longrightarrow> normalize_data data = [])"
    using first_list_value_first first_list_value_none by auto
  moreover have "\<forall>xs. data = JList xs \<longrightarrow> normalize_data data = xs" by simp
  moreover have "\<not> is_dict data \<and> \<not> is_list data \<longrightarrow> normalize_data data = []"
    by (cases data) (simp_all add: is_dict_def is_list_def)
  ultimately show ?thesis by blast
qed

lemma raise_for_status_ok: "raise_for_status (ok_response data) = Inr ()"
  by (simp add: raise_for_status_def ok_response_def)

lemma body_json_ok: "body_json (ok_response data) = Some data"
  by (simp add: ok_response_def)

lemma answer_all_ok: "answer_all data url headers = Inr (ok_response data)"
  by (simp add: answer_all_def)

theorem fetch_items_normalizes_witness:
  "fetch_items (answer_all (JDict example_entries))
     (py ''Basic YTpi'') (py ''W1'') (py ''M1'') (py ''processes'') = Inr [example_item]"
proof -
  note inst = fetch_items_normalizes [of "answer_all (JDict example_entries)" "py ''W1''"
      "py ''M1''" "py ''processes''" "py ''Basic YTpi''" "ok_response (JDict example_entries)"
      "JDict example_entries", OF answer_all_ok raise_for_status_ok body_json_ok]
  have len: "1 < length example_entries" by (simp add: example_entries_def)
  have at: "snd (example_entries ! 1) = JList [example_item]"
    by (simp add: example_entries_def)
  have before: "\<forall>j<1. \<not> is_list (snd (example_entries ! j))"
    by (simp add: example_entries_def is_list_def)
  from inst len at before show ?thesis by blast
qed

text \<open>
  Claim C7. The normalisation never raises: once the request is answered with a status
  that is not an error status and a body that decodes, \<open>fetch_items\<close> returns a sequence
  whatever the decoded value is. The sequence is empty, or it is the body itself, or it is
  a value of one of the body's entries; a shape that fits neither gives the empty sequence.
\<close>

theorem fetch_items_total_on_decoded:
  assumes "get (item_url w m t) (request_headers a) = Inr r"
    and "raise_for_status r = Inr ()"
    and "body_json r = Some data"
  shows "\<exists>items. fetch_items get a w m t = Inr items \<and>
           (items = [] \<or> data = JList items \<or>
            (\<exists>entries key. data = JDict entries \<and> (key, JList items) \<in> set entries))"
proof -
  have ret: "fetch_items get a w m t = Inr (normalize_data data)"
    using assms by (rule fetch_items_decoded)
  have "normalize_data data = [] \<or> data = JList (normalize_data data) \<or>
        (\<exists>entries key. data = JDict entries \<and> (key, JList (normalize_data data)) \<in> set entries)"
  proof (cases data)
    case (JDict entries)
    with first_list_value_origin [of entries] show ?thesis by auto
  qed simp_all
  with ret show ?thesis by blast
qed

theorem fetch_items_total_on_decoded_witness:
  "fetch_items (answer_all (JInt 42))
     (py ''Basic YTpi'') (py ''W1'') (py ''M1'') (py ''imports'') = Inr []"
proof -
  note inst = fetch_items_total_on_decoded [of "answer_all (JInt 42)" "py ''W1''" "py ''M1''"
      "py ''imports''" "py ''Basic YTpi''" "ok_response (JInt 42)" "JInt 42",
      OF answer_all_ok raise_for_status_ok body_json_ok]
  then show ?thesis by auto
qed

text \<open>
  Claim C10. The scan looks at the top-level values only: when no value of the mapping is
  itself a sequence, \<open>fetch_items\<close> returns the empty sequence, whatever the values hold,
  so a sequence inside a sub-mapping is never found.
\<close>

theorem fetch_items_scan_is_shallow:
  assumes "get (item_url w m t) (request_headers a) = Inr r"
    and "raise_for_status r = Inr ()"
    and "body_json r = Some (JDict entries)"
    and "\<forall>i<length entries. \<not> is_list (snd (entries ! i))"
  shows "fetch_items get a w m t = Inr []"
proof -
  have "fetch_items get a w m t = Inr (normalize_data (JDict entries))"
    using assms(1-3) by (rule fetch_items_decoded)
  moreover have "first_list_value entries = []"
    using assms(4) by (rule first_list_value_none)
  ultimately show ?thesis by simp
qed

theorem fetch_items_scan_is_shallow_witness:
  "fetch_items
     (answer_all (JDict [(py ''meta'', JDict [(py ''items'', JList [example_item])]),
                         (py ''n'', JInt 1)]))
     (py ''Basic YTpi'') (py ''W1'') (py ''M1'') (py ''exports'') = Inr []"
proof -
  have top: "\<forall>i<length nested_entries. \<not> is_list (snd (nested_entries ! i))"
    by (simp add: nested_entries_def is_list_def less_Suc_eq)
  note inst = fetch_items_scan_is_shallow [of "answer_all (JDict nested_entries)" "py ''W1''"
      "py ''M1''" "py ''exports''" "py ''Basic YTpi''" "ok_response (JDict nested_entries)"
      nested_entries, OF answer_all_ok raise_for_status_ok body_json_ok top]
  then show ?thesis by (simp only: nested_entries_def)
qed

section \<open>The four categories\<close>

text \<open>
  Claim C5. Every value that \<open>get_all_action_types\<close> returns is a mapping with exactly the
  four keys Processes, Imports, Exports and Other Actions, in that order, and the value of
  each is the sequence that \<open>fetch_items\<close> returned for the resource processes, imports,
  exports and actions respectively.
\<close>

theorem get_all_action_types_shape:
  assumes "get_all_action_types get a w m = Inr d"
  shows "\<exists>ps im ex ac.
           d = [(py ''Processes'', ps), (py ''Imports'', im),
                (py ''Exports'', ex), (py ''Other Actions'', ac)] \<and>
           fetch_items get a w m (py ''processes'') = Inr ps \<and>
           fetch_items get a w m (py ''imports'') = Inr im \<and>
           fetch_items get a w m (py ''exports'') = Inr ex \<and>
           fetch_items get a w m (py ''actions'') = Inr ac \<and>
           distinct (map fst d) \<and> length d = 4"
proof -
  from assms obtain ps im ex ac where
    "fetch_items get a w m (py ''processes'') = Inr ps"
    "fetch_items get a w m (py ''imports'') = Inr im"
    "fetch_items get a w m (py ''exports'') = Inr ex"
    "fetch_items get a w m (py ''actions'') = Inr ac"
    "d = [(py ''Processes'', ps), (py ''Imports'', im),
          (py ''Exports'', ex), (py ''Other Actions'', ac)]"
    by (auto simp: get_all_action_types_def split: sum.splits)
  moreover have "distinct [py ''Processes'', py ''Imports'', py ''Exports'', py ''Other Actions'']"
    by (simp add: py_def)
  ultimately show ?thesis by simp
qed

lemma fetch_items_answer_all:
  "fetch_items (answer_all data) a w m t = Inr (normalize_data data)"
  by (rule fetch_items_decoded [OF answer_all_ok raise_for_status_ok body_json_ok])

theorem get_all_action_types_shape_witness:
  "get_all_action_types (answer_all (JList [example_item])) (py ''Basic YTpi'') (py ''W1'') (py ''M1'')
     = Inr [(py ''Processes'', [example_item]), (py ''Imports'', [example_item]),
            (py ''Exports'', [example_item]), (py ''Other Actions'', [example_item])]"
proof -
  let ?d = "[(py ''Processes'', [example_item]), (py ''Imports'', [example_item]),
            (py ''Exports'', [example_item]), (py ''Other Actions'', [example_item])]"
  have run: "get_all_action_types (answer_all (JList [example_item])) (py ''Basic YTpi'')
               (py ''W1'') (py ''M1'') = Inr ?d"
    by (simp add: get_all_action_types_def fetch_items_answer_all)
  from get_all_action_types_shape [OF run] have "length ?d = 4" by blast
  with run show ?thesis by simp
qed

section \<open>Base64 is reversible\<close>

lemma digits_a: "n div 262144 * 64 + n div 4096 mod 64 = (n::nat) div 4096"
proof -
  have "n div 262144 = n div 4096 div 64" by (simp add: div_mult2_eq)
  then show ?thesis by (simp only: div_mult_mod_eq)
qed

lemma digits_b: "n div 4096 * 64 + n div 64 mod 64 = (n::nat) div 64"
proof -
  have "n div 4096 = n div 64 div 64" by (simp add: div_mult2_eq)
  then show ?thesis by (simp only: div_mult_mod_eq)
qed

lemma digits_c: "n div 64 * 64 + n mod 64 = (n::nat)"
  by (rule div_mult_mod_eq)

lemma digits_all:
  "((n div 262144 * 64 + n div 4096 mod 64) * 64 + n div 64 mod 64) * 64 + n mod 64 = (n::nat)"
  by (simp only: digits_a digits_b digits_c)

lemma unat_byte: "unat (a::byte) < 256"
  using unsigned_less [of a] by simp

lemma bytes_lo: "z < 256 \<Longrightarrow> (q * 256 + z) mod 256 = (z::nat)"
  by simp

lemma bytes_div: "z < 256 \<Longrightarrow> (q * 256 + z) div 256 = (q::nat)"
  by simp

lemma bytes_mid: "y < 256 \<Longrightarrow> z < 256 \<Longrightarrow> ((x * 256 + y) * 256 + z) div 256 mod 256 = (y::nat)"
  by (simp only: bytes_div bytes_lo)

lemma bytes_hi: "y < 256 \<Longrightarrow> z < 256 \<Longrightarrow> ((x * 256 + y) * 256 + z) div 65536 = (x::nat)"
proof -
  assume y: "y < 256" and z: "z < 256"
  have "((x * 256 + y) * 256 + z) div 65536 = ((x * 256 + y) * 256 + z) div 256 div 256"
    by (simp add: div_mult2_eq)
  also have "\<dots> = x" using y z by (simp only: bytes_div)
  finally show ?thesis .
qed

lemma bytes_bound: "x < 256 \<Longrightarrow> y < 256 \<Longrightarrow> z < 256 \<Longrightarrow> (x * 256 + y) * 256 + z < (16777216::nat)"
  by simp

lemma top_digit: "n < 16777216 \<Longrightarrow> n div 262144 < (64::nat)"
  by (simp add: less_mult_imp_div_less)

lemma index_of_nth: "distinct xs \<Longrightarrow> i < length xs \<Longrightarrow> index_of (xs ! i) xs = Some i"
proof (induction xs arbitrary: i)
  case Nil
  then show ?case by simp
next
  case (Cons x xs)
  then show ?case by (cases i) (auto simp: nth_mem)
qed

lemma B64_distinct: "distinct B64_ALPHABET"
  by (simp add: B64_ALPHABET_def)

lemma B64_length: "length B64_ALPHABET = 64"
  by (simp add: B64_ALPHABET_def)

lemma b64_pad_not_digit: "b64_pad \<notin> set B64_ALPHABET"
  by (simp add: B64_ALPHABET_def b64_pad_def)

lemma b64_value_digit: "i < 64 \<Longrightarrow> b64_value (b64_digit i) = Some i"
  by (simp add: b64_value_def b64_digit_def index_of_nth B64_distinct B64_length)

lemma b64_digit_not_pad: "i < 64 \<Longrightarrow> b64_digit i \<noteq> b64_pad"
proof
  assume "i < 64" and "b64_digit i = b64_pad"
  then have "b64_pad \<in> set B64_ALPHABET"
    using nth_mem [of i B64_ALPHABET] by (simp add: b64_digit_def B64_length)
  with b64_pad_not_digit show False by simp
qed

lemma b64decode_full:
  assumes "b64_value c1 = Some v1" and "b64_value c2 = Some v2"
    and "b64_value c3 = Some v3" and "b64_value c4 = Some v4"
    and "c4 \<noteq> b64_pad" and "b64decode rest = Some bs"
  shows "b64decode (c1 # c2 # c3 # c4 # rest) =
           Some (of_nat ((((v1 * 64 + v2) * 64 + v3) * 64 + v4) div 65536) #
                 of_nat ((((v1 * 64 + v2) * 64 + v3) * 64 + v4) div 256 mod 256) #
                 of_nat ((((v1 * 64 + v2) * 64 + v3) * 64 + v4) mod 256) # bs)"
  using assms by (simp add: Let_def)

lemma b64decode_two:
  assumes "b64_value c1 = Some v1" and "b64_value c2 = Some v2"
    and "b64_value c3 = Some v3" and "c3 \<noteq> b64_pad"
  shows "b64decode [c1, c2, c3, b64_pad] =
           Some [of_nat ((((v1 * 64 + v2) * 64 + v3) * 64) div 65536),
                 of_nat ((((v1 * 64 + v2) * 64 + v3) * 64) div 256 mod 256)]"
  using assms by (simp add: Let_def)

lemma b64decode_one:
  assumes "b64_value c1 = Some v1" and "b64_value c2 = Some v2"
  shows "b64decode [c1, c2, b64_pad, b64_pad] = Some [of_nat (((v1 * 64 + v2) * 4096) div 65536)]"
  using assms by (simp add: Let_def)

lemma b64decode_b64encode: "b64decode (b64encode bs) = Some bs"
proof (induction bs rule: b64encode.induct)
  case (1 a b c rest)
  define n where "n = (unat a * 256 + unat b) * 256 + unat c"
  have n: "n < 16777216"
    unfolding n_def by (rule bytes_bound) (rule unat_byte)+
  have enc: "b64encode (a # b # c # rest) =
      b64_digit (n div 262144) # b64_digit (n div 4096 mod 64) #
      b64_digit (n div 64 mod 64) # b64_digit (n mod 64) # b64encode rest"
    unfolding n_def by (simp only: b64encode.simps Let_def)
  have "b64decode (b64encode (a # b # c # rest)) =
      Some (of_nat (n div 65536) # of_nat (n div 256 mod 256) # of_nat (n mod 256) # rest)"
    unfolding enc
    using b64decode_full [of "b64_digit (n div 262144)" "n div 262144"
        "b64_digit (n div 4096 mod 64)" "n div 4096 mod 64"
        "b64_digit (n div 64 mod 64)" "n div 64 mod 64"
        "b64_digit (n mod 64)" "n mod 64" "b64encode rest" rest]
    by (simp only: digits_all b64_value_digit b64_digit_not_pad top_digit [OF n] "1.IH"
          mod_less_divisor zero_less_numeral not_False_eq_True simp_thms)
  moreover have "n div 65536 = unat a"
    unfolding n_def by (rule bytes_hi) (rule unat_byte)+
  moreover have "n div 256 mod 256 = unat b"
    unfolding n_def by (rule bytes_mid) (rule unat_byte)+
  moreover have "n mod 256 = unat c"
    unfolding n_def by (rule bytes_lo) (rule unat_byte)
  ultimately show ?case by simp
next
  case (2 a b)
  define n where "n = (unat a * 256 + unat b) * 256"
  have n0: "n = (unat a * 256 + unat b) * 256 + 0" by (simp add: n_def)
  have n: "n < 16777216"
    unfolding n0 by (rule bytes_bound) (simp_all add: unat_byte)
  have exact: "n div 64 * 64 = n"
  proof -
    have "n = (unat a * 256 + unat b) * 4 * 64" by (simp add: n_def)
    then show ?thesis by simp
  qed
  have enc: "b64encode [a, b] =
      [b64_digit (n div 262144), b64_digit (n div 4096 mod 64), b64_digit (n div 64 mod 64), b64_pad]"
    unfolding n_def by (simp only: b64encode.simps Let_def)
  have recomb: "((n div 262144 * 64 + n div 4096 mod 64) * 64 + n div 64 mod 64) * 64 = n"
    by (simp only: digits_a digits_b exact)
  have "b64decode (b64encode [a, b]) = Some [of_nat (n div 65536), of_nat (n div 256 mod 256)]"
    unfolding enc
    using b64decode_two [of "b64_digit (n div 262144)" "n div 262144"
        "b64_digit (n div 4096 mod 64)" "n div 4096 mod 64"
        "b64_digit (n div 64 mod 64)" "n div 64 mod 64"]
    by (simp only: recomb b64_value_digit b64_digit_not_pad top_digit [OF n]
          mod_less_divisor zero_less_numeral not_False_eq_True simp_thms)
  moreover have "n div 65536 = unat a"
    unfolding n0 by (rule bytes_hi) (simp_all add: unat_byte)
  moreover have "n div 256 mod 256 = unat b"
    unfolding n0 by (rule bytes_mid) (simp_all add: unat_byte)
  ultimately show ?case by simp
next
  case (3 a)
  define n where "n = unat a * 256 * 256"
  have n0: "n = (unat a * 256 + 0) * 256 + 0" by (simp add: n_def)
  have n: "n < 16777216"
    unfolding n0 by (rule bytes_bound) (simp_all add: unat_byte)
  have exact: "n div 4096 * 4096 = n"
  proof -
    have "n = unat a * 16 * 4096" by (simp add: n_def)
    then show ?thesis by simp
  qed
  have enc: "b64encode [a] =
      [b64_digit (n div 262144), b64_digit (n div 4096 mod 64), b64_pad, b64_pad]"
    unfolding n_def by (simp only: b64encode.simps Let_def)
  have recomb: "(n div 262144 * 64 + n div 4096 mod 64) * 4096 = n"
    by (simp only: digits_a exact)
  have "b64decode (b64encode [a]) = Some [of_nat (n div 65536)]"
    unfolding enc
    using b64decode_one [of "b64_digit (n div 262144)" "n div 262144"
        "b64_digit (n div 4096 mod 64)" "n div 4096 mod 64"]
    by (simp only: recomb b64_value_digit top_digit [OF n]
          mod_less_divisor zero_less_numeral simp_thms)
  moreover have "n div 65536 = unat a"
    unfolding n0 by (rule bytes_hi) (simp_all add: unat_byte)
  ultimately show ?case by simp
next
  case 4
  then show ?case by simp
qed

lemma b64_digit_in: "i < 64 \<Longrightarrow> b64_digit i \<in> set B64_ALPHABET"
  by (simp add: b64_digit_def B64_length)

lemma b64encode_symbols: "set (b64encode bs) \<subseteq> insert b64_pad (set B64_ALPHABET)"
proof (induction bs rule: b64encode.induct)
  case (1 a b c rest)
  have "(unat a * 256 + unat b) * 256 + unat c < 16777216"
    by (rule bytes_bound) (rule unat_byte)+
  then have "((unat a * 256 + unat b) * 256 + unat c) div 262144 < 64"
    by (rule top_digit)
  with 1 show ?case
    by (simp only: b64encode.simps Let_def set_simps insert_subset b64_digit_in
          mod_less_divisor zero_less_numeral insertI1 insertI2 simp_thms)
next
  case (2 a b)
  have "(unat a * 256 + unat b) * 256 + 0 < 16777216"
    by (rule bytes_bound) (simp_all add: unat_byte)
  then have "((unat a * 256 + unat b) * 256) div 262144 < 64"
    by (simp only: add_0_right top_digit)
  then show ?case
    by (simp only: b64encode.simps Let_def set_simps insert_subset b64_digit_in
          mod_less_divisor zero_less_numeral insertI1 insertI2 empty_subsetI simp_thms)
next
  case (3 a)
  have "(unat a * 256 + 0) * 256 + 0 < 16777216"
    by (rule bytes_bound) (simp_all add: unat_byte)
  then have "(unat a * 256 * 256) div 262144 < 64"
    by (simp only: add_0_right top_digit)
  then show ?case
    by (simp only: b64encode.simps Let_def set_simps insert_subset b64_digit_in
          mod_less_divisor zero_less_numeral insertI1 insertI2 empty_subsetI simp_thms)
next
  case 4
  then show ?case by simp
qed

lemma b64_symbols_ascii: "\<forall>b \<in> insert b64_pad (set B64_ALPHABET). b < 128"
  by (simp add: B64_ALPHABET_def b64_pad_def)

lemma b64encode_ascii: "list_all (\<lambda>b. b < 128) (b64encode bs)"
  using b64encode_symbols [of bs] b64_symbols_ascii by (auto simp: list_all_iff)

lemma of_nat_ascii_str: "map of_nat (ascii_str bs) = bs"
  by (simp add: ascii_str_def comp_def map_idI)

lemma utf8_encode_append:
  "utf8_encode xs = Inr a \<Longrightarrow> utf8_encode ys = Inr b \<Longrightarrow> utf8_encode (xs @ ys) = Inr (a @ b)"
  by (induction xs arbitrary: a) (auto split: sum.splits)

lemma utf8_encode_colon: "utf8_encode (py '':'') = Inr [0x3A]"
  by (simp add: py_def utf8_char_def)

lemma length_Basic: "length (py ''Basic '') = 6"
  by (simp add: py_def)

text \<open>
  Claim C6, as amended. For every identity and secret that UTF-8 can encode,
  \<open>get_basic_auth_header\<close> returns the label \<^verbatim>\<open>Basic\<close> and a space followed by the Base64
  text of the bytes of the identity, one colon and the secret; the function has no state,
  and the token determines those bytes, since decoding what follows the label gives them
  back.
\<close>

theorem get_basic_auth_header_encodable:
  assumes "utf8_encode username = Inr u" and "utf8_encode password = Inr p"
  shows "\<exists>token. get_basic_auth_header username password = Inr token \<and>
           token = py ''Basic '' @ ascii_str (b64encode (u @ [0x3A] @ p)) \<and>
           b64decode (map of_nat (drop 6 token)) = Some (u @ [0x3A] @ p)"
proof -
  have "utf8_encode (username @ py '':'' @ password) = Inr (u @ [0x3A] @ p)"
    using assms by (intro utf8_encode_append utf8_encode_colon)
  then have "get_basic_auth_header username password =
      Inr (py ''Basic '' @ ascii_str (b64encode (u @ [0x3A] @ p)))"
    by (simp add: get_basic_auth_header_def)
  moreover have "b64decode (map of_nat
      (drop 6 (py ''Basic '' @ ascii_str (b64encode (u @ [0x3A] @ p))))) = Some (u @ [0x3A] @ p)"
    by (simp only: drop_append length_Basic drop_all order_refl diff_self_eq_0 drop_0
          append_Nil of_nat_ascii_str b64decode_b64encode)
  ultimately show ?thesis by blast
qed

lemma utf8_a: "utf8_encode (py ''a'') = Inr [0x61]"
  by (simp add: py_def utf8_char_def)

lemma utf8_b: "utf8_encode (py ''b'') = Inr [0x62]"
  by (simp add: py_def utf8_char_def)

theorem get_basic_auth_header_encodable_witness:
  "get_basic_auth_header (py ''a'') (py ''b'') = Inr (py ''Basic YTpi'')
   \<and> b64decode (map of_nat (drop 6 (py ''Basic YTpi''))) = Some [0x61, 0x3A, 0x62]"
proof -
  have enc: "py ''Basic '' @ ascii_str (b64encode ([0x61] @ [0x3A] @ [0x62])) = py ''Basic YTpi''"
    by (simp add: py_def ascii_str_def b64_digit_def B64_ALPHABET_def)
  from get_basic_auth_header_encodable [OF utf8_a utf8_b] show ?thesis
    by (simp only: enc) simp
qed

text \<open>
  The claim as stated, for every identity and secret, fails on an identity that holds a
  lone surrogate: encoding it raises, and no token is returned.
\<close>

theorem get_basic_auth_header_surrogate:
  "get_basic_auth_header [0xD800] (py ''pw'') = Inl UnicodeEncodeError
   \<and> (\<nexists>token. get_basic_auth_header [0xD800] (py ''pw'') = Inr token)"
  by (simp add: get_basic_auth_header_def utf8_char_def)

section \<open>A failed fetch\<close>

lemma get_all_action_types_fails:
  assumes "t \<in> set RESOURCES" and "fetch_items get tok w m t = Inl e"
  shows "\<exists>e'. get_all_action_types get tok w m = Inl e' \<and>
           (\<exists>t'\<in>set RESOURCES. fetch_items get tok w m t' = Inl e')"
  using assms
  by (auto simp: get_all_action_types_def RESOURCES_def split: sum.splits)

lemma fetch_actions_failed:
  assumes "get_all_action_types get tok w m = Inl e'"
    and "get_basic_auth_header email password = Inr tok"
  shows "st_action_data (fst (main_fetch_actions get s email password w m)) = st_action_data s"
    and "main_display_actions (fst (main_fetch_actions get s email password w m)) =
           main_display_actions s"
    and "email \<noteq> [] \<and> password \<noteq> [] \<and> w \<noteq> [] \<and> m \<noteq> [] \<longrightarrow>
           snd (main_fetch_actions get s email password w m) = Error_connection e'"
  using assms by (simp_all add: main_fetch_actions_def main_display_actions_def)

text \<open>
  Claim C3. When the fetch of any one of the four categories raises, \<open>get_all_action_types\<close>
  raises an error of one of the fetches and returns no mapping at all; the Fetch branch
  of \<open>main\<close> then leaves \<open>action_data\<close> in the session state as it was, so that the same
  combined list is shown as before, and reports a connection error.
\<close>

theorem failed_fetch_keeps_action_data:
  assumes "t \<in> set RESOURCES" and "fetch_items get tok w m t = Inl e"
  shows "\<exists>e'. get_all_action_types get tok w m = Inl e' \<and>
           (\<exists>t'\<in>set RESOURCES. fetch_items get tok w m t' = Inl e') \<and>
           (\<forall>s email password. get_basic_auth_header email password = Inr tok \<longrightarrow>
              st_action_data (fst (main_fetch_actions get s email password w m)) = st_action_data s \<and>
              main_display_actions (fst (main_fetch_actions get s email password w m)) =
                main_display_actions s \<and>
              (email \<noteq> [] \<and> password \<noteq> [] \<and> w \<noteq> [] \<and> m \<noteq> [] \<longrightarrow>
                 snd (main_fetch_actions get s email password w m) = Error_connection e'))"
proof -
  from get_all_action_types_fails [OF assms] obtain e' where
    all: "get_all_action_types get tok w m = Inl e'"
    and one: "\<exists>t'\<in>set RESOURCES. fetch_items get tok w m t' = Inl e'"
    by blast
  from fetch_actions_failed [OF all] all one show ?thesis by blast
qed

lemma header_a_b: "get_basic_auth_header (py ''a'') (py ''b'') = Inr (py ''Basic YTpi'')"
  by (simp add: get_basic_auth_header_def py_def utf8_char_def ascii_str_def b64_digit_def
        B64_ALPHABET_def)

lemma fails_on_exports_exports:
  "fetch_items fails_on_exports tok (py ''W1'') (py ''M1'') (py ''exports'') = Inl (HTTPError 500)"
  by (simp add: fetch_items_def fails_on_exports_def raise_for_status_def)

theorem failed_fetch_keeps_action_data_witness:
  "st_action_data (fst (main_fetch_actions fails_on_exports
      (initial_state\<lparr>st_action_data := Some earlier_collection\<rparr>)
      (py ''a'') (py ''b'') (py ''W1'') (py ''M1''))) = Some earlier_collection
   \<and> (\<exists>e'. get_all_action_types fails_on_exports (py ''Basic YTpi'') (py ''W1'') (py ''M1'') = Inl e')"
proof -
  have "py ''exports'' \<in> set RESOURCES" by (simp add: RESOURCES_def)
  from failed_fetch_keeps_action_data [OF this fails_on_exports_exports, of "py ''Basic YTpi''"]
    header_a_b
  show ?thesis by fastforce
qed

section \<open>The stored token\<close>

lemma urls_differ:
  "item_url (py ''W1'') (py ''M1'') (py ''processes'') \<noteq> item_url (py ''W1'') (py ''M1'') (py ''exports'')"
  "item_url (py ''W1'') (py ''M1'') (py ''imports'') \<noteq> item_url (py ''W1'') (py ''M1'') (py ''exports'')"
  by (simp_all add: item_url_def py_def)

lemma fails_on_exports_all:
  "get_all_action_types fails_on_exports tok (py ''W1'') (py ''M1'') = Inl (HTTPError 500)"
  by (simp add: get_all_action_types_def fetch_items_def fails_on_exports_def urls_differ
        raise_for_status_ok body_json_ok response_json_def)
     (simp add: raise_for_status_def)

lemma fetch_actions_valid:
  assumes "email \<noteq> []" "password \<noteq> []" "w \<noteq> []" "m \<noteq> []"
    and "get_basic_auth_header email password = Inr tok"
  shows "st_auth_header (fst (main_fetch_actions get s email password w m)) = Some tok"
    and "st_action_data (fst (main_fetch_actions get s email password w m)) =
          (case get_all_action_types get tok w m of
             Inl e \<Rightarrow> st_action_data s | Inr d \<Rightarrow> Some d)"
  using assms by (simp_all add: main_fetch_actions_def Let_def split: sum.splits)

lemma fetch_actions_ignores_auth_header:
  "snd (main_fetch_actions get (s\<lparr>st_auth_header := x\<rparr>) email password w m) =
     snd (main_fetch_actions get s email password w m)"
  "st_action_data (fst (main_fetch_actions get (s\<lparr>st_auth_header := x\<rparr>) email password w m)) =
     st_action_data (fst (main_fetch_actions get s email password w m))"
  by (simp_all add: main_fetch_actions_def Let_def split: sum.splits)

lemma fetch_actions_credentials:
  "st_credentials (fst (main_fetch_actions get s email password w m)) = st_credentials s"
  by (simp add: main_fetch_actions_def Let_def split: sum.splits)

text \<open>
  Claim C9, as amended. Every fetch that passes the input checks computes the token anew
  from the entered e-mail and password and makes its requests with it; the copy kept in
  the session state under \<open>auth_header\<close> is overwritten then and is never read: neither
  the message nor the stored action data of a fetch depends on it. The fetch does not
  touch the stored credential.
\<close>

theorem auth_header_recomputed_not_read:
  "(email \<noteq> [] \<and> password \<noteq> [] \<and> w \<noteq> [] \<and> m \<noteq> [] \<and>
      get_basic_auth_header email password = Inr tok \<longrightarrow>
        st_auth_header (fst (main_fetch_actions get s email password w m)) = Some tok \<and>
        st_action_data (fst (main_fetch_actions get s email password w m)) =
          (case get_all_action_types get tok w m of
             Inl e \<Rightarrow> st_action_data s | Inr d \<Rightarrow> Some d)) \<and>
   snd (main_fetch_actions get (s\<lparr>st_auth_header := x\<rparr>) email password w m) =
     snd (main_fetch_actions get s email password w m) \<and>
   st_action_data (fst (main_fetch_actions get (s\<lparr>st_auth_header := x\<rparr>) email password w m)) =
     st_action_data (fst (main_fetch_actions get s email password w m)) \<and>
   st_credentials (fst (main_fetch_actions get s email password w m)) = st_credentials s"
  by (simp add: fetch_actions_valid fetch_actions_ignores_auth_header
        fetch_actions_credentials)

theorem auth_header_recomputed_not_read_witness:
  "st_auth_header (fst (main_fetch_actions fails_on_exports initial_state
      (py ''a'') (py ''b'') (py ''W1'') (py ''M1''))) = Some (py ''Basic YTpi'')"
proof -
  have ne: "py ''a'' \<noteq> [] \<and> py ''b'' \<noteq> [] \<and> py ''W1'' \<noteq> [] \<and> py ''M1'' \<noteq> [] \<and>
      get_basic_auth_header (py ''a'') (py ''b'') = Inr (py ''Basic YTpi'')"
    by (simp add: header_a_b) (simp add: py_def)
  from auth_header_recomputed_not_read [of "py ''a''" "py ''b''" "py ''W1''" "py ''M1''"
      "py ''Basic YTpi''" fails_on_exports initial_state None] ne
  show ?thesis by blast
qed

text \<open>
  The claim as stated fails: the token is stored in the session state under a key of its
  own, and it is still there when the credential it was made from has expired.
\<close>

theorem auth_header_outlives_credential:
  "get_credentials
     (fst (main_fetch_actions fails_on_exports (save_credentials initial_state (py ''a'') (py ''b'') 0)
        (py ''a'') (py ''b'') (py ''W1'') (py ''M1''))) 600 = (None, None)
   \<and> st_auth_header
     (fst (main_fetch_actions fails_on_exports (save_credentials initial_state (py ''a'') (py ''b'') 0)
        (py ''a'') (py ''b'') (py ''W1'') (py ''M1''))) = Some (py ''Basic YTpi'')"
proof -
  have ne: "py ''a'' \<noteq> []" "py ''b'' \<noteq> []" "py ''W1'' \<noteq> []" "py ''M1'' \<noteq> []"
    by (simp_all add: py_def)
  show ?thesis
    by (simp add: main_fetch_actions_def ne header_a_b fails_on_exports_all get_credentials_def
          save_credentials_def CREDENTIAL_EXPIRY_SECONDS_def)
qed

section \<open>The combined list\<close>

lemma table_rows_records:
  "table_rows (map JDict rs) =
     Inr (map (\<lambda>entries. (field_or_empty entries (py ''name''), field_or_empty entries (py ''id''))) rs)"
  by (induction rs) (simp_all add: field_or_empty_def)

lemma display_loop_records:
  "main_display_loop (map (\<lambda>(category, rs). (category, map JDict rs)) d) combined_data =
     Inr (combined_data @ concat (map (\<lambda>(category, rs). map (action_item category) rs) d))"
proof (induction d arbitrary: combined_data)
  case Nil
  then show ?case by simp
next
  case (Cons entry d)
  obtain category rs where entry: "entry = (category, rs)" by (cases entry)
  show ?case
  proof (cases "rs = []")
    case True
    with Cons.IH entry show ?thesis by simp
  next
    case False
    with Cons.IH entry show ?thesis
      by (simp add: table_rows_records comp_def action_item_def)
  qed
qed

text \<open>
  Claim C4. For a mapping with the four categories in the order Processes, Imports,
  Exports, Other Actions (the mappings that \<open>get_all_action_types\<close> returns) whose items
  are records with a string or nothing for name and id, the combined list is the items of
  Processes, then those of Imports, of Exports and of Other Actions, each category's items
  in their own order, every item with its category as Type and with the empty string for
  a name or an id that the record lacks.
\<close>

theorem display_actions_flattens:
  assumes "list_all string_fields (ps @ im @ ex @ ac)"
  shows "main_display_actions
           (s\<lparr>st_action_data :=
                Some [(py ''Processes'', map JDict ps), (py ''Imports'', map JDict im),
                      (py ''Exports'', map JDict ex), (py ''Other Actions'', map JDict ac)]\<rparr>) =
         Inr (map (action_item (py ''Processes'')) ps @ map (action_item (py ''Imports'')) im @
              map (action_item (py ''Exports'')) ex @ map (action_item (py ''Other Actions'')) ac)"
  using display_loop_records
    [of "[(py ''Processes'', ps), (py ''Imports'', im), (py ''Exports'', ex),
          (py ''Other Actions'', ac)]" "[]"]
  by (simp add: main_display_actions_def)

theorem display_actions_flattens_witness:
  "main_display_actions
     (initial_state\<lparr>st_action_data :=
        Some [(py ''Processes'', [JDict p1_entries]), (py ''Imports'', []),
              (py ''Exports'', [JDict e1_entries]), (py ''Other Actions'', [])]\<rparr>) =
   Inr [\<lparr>row_Name = JStr (py ''P1''), row_ID = JStr (py ''p1''), row_Type = py ''Processes''\<rparr>,
        \<lparr>row_Name = JStr [], row_ID = JStr (py ''e1''), row_Type = py ''Exports''\<rparr>]"
proof -
  have fields: "list_all string_fields ([p1_entries] @ [] @ [e1_entries] @ [])"
    by (simp add: string_fields_def str_or_absent_def p1_entries_def e1_entries_def py_def)
  have p1: "action_item (py ''Processes'') p1_entries =
      \<lparr>row_Name = JStr (py ''P1''), row_ID = JStr (py ''p1''), row_Type = py ''Processes''\<rparr>"
    by (simp add: action_item_def field_or_empty_def p1_entries_def py_def)
  have e1: "action_item (py ''Exports'') e1_entries =
      \<lparr>row_Name = JStr [], row_ID = JStr (py ''e1''), row_Type = py ''Exports''\<rparr>"
    by (simp add: action_item_def field_or_empty_def e1_entries_def py_def)
  from display_actions_flattens [OF fields, of initial_state] show ?thesis
    by (simp add: p1 e1)
qed

end
